theory Spec2Isabelle
  imports Complex_Main "HOL-Library.Sublist" "HOL-Library.AList" "HOL-Library.Multiset"
begin

section \<open>Strings of the service\<close>

text \<open>
  A JavaScript string is a sequence of UTF-16 code units. The regular expression of
  \<open>sanitizeFileName\<close> names the Hangul syllables U+AC00 to U+D7A3, which do not fit the
  8-bit characters of HOL, so a string is a list of code units, each a natural number.
  \<open>str\<close> writes an ASCII literal as such a list.
\<close>

type_synonym jsstring = "nat list"

definition str :: "string \<Rightarrow> jsstring" where
  "str s = map of_char s"

text \<open>
  The class \<open>\s\<close> of a regular expression without the \<open>u\<close> flag, which is also the set
  \<open>String.prototype.trim\<close> strips: tab, line feed, vertical tab, form feed, carriage
  return, space, U+00A0, U+1680, U+2000 to U+200A, U+2028, U+2029, U+202F, U+205F, U+3000
  and U+FEFF.
\<close>

definition is_space :: "nat \<Rightarrow> bool" where
  "is_space c \<longleftrightarrow>
     (9 \<le> c \<and> c \<le> 13) \<or> c = 32 \<or> c = 160 \<or> c = 5760 \<or> (8192 \<le> c \<and> c \<le> 8202) \<or>
     c = 8232 \<or> c = 8233 \<or> c = 8239 \<or> c = 8287 \<or> c = 12288 \<or> c = 65279"

text \<open>The class \<open>[a-zA-Z0-9\<dots>\s-]\<close> with the Hangul range U+AC00 to U+D7A3: the code units
  that the first \<open>replace\<close> of \<open>sanitizeFileName\<close> keeps.\<close>

definition title_char :: "nat \<Rightarrow> bool" where
  "title_char c \<longleftrightarrow>
     (97 \<le> c \<and> c \<le> 122) \<or> (65 \<le> c \<and> c \<le> 90) \<or> (48 \<le> c \<and> c \<le> 57) \<or>
     (44032 \<le> c \<and> c \<le> 55203) \<or> is_space c \<or> c = 45"

text \<open>
  \<open>replace(/\s+/g, '-')\<close>: every maximal run of white space becomes one hyphen (code
  unit 45).
\<close>

function replace_spaces :: "jsstring \<Rightarrow> jsstring" where
  "replace_spaces [] = []"
| "replace_spaces (c # cs) =
     (if is_space c then 45 # replace_spaces (dropWhile is_space cs)
      else c # replace_spaces cs)"
  by pat_completeness auto
termination
  by (relation "measure length") (auto simp: less_Suc_eq_le length_dropWhile_le)

text \<open>
  \<open>toLowerCase\<close> on the code units the model gives it: the letters A to Z move to a to z,
  and every other ASCII code unit and every Hangul syllable (which has no case) stays.
  In \<open>sanitizeFileName\<close> nothing else reaches it, the two replacements having left only
  ASCII letters, digits, hyphens and Hangul syllables. For other cased letters (outside
  ASCII) the Unicode case tables of the runtime are not part of this model.
\<close>

definition lower_unit :: "nat \<Rightarrow> nat" where
  "lower_unit c = (if 65 \<le> c \<and> c \<le> 90 then c + 32 else c)"

definition toLowerCase :: "jsstring \<Rightarrow> jsstring" where
  "toLowerCase s = map lower_unit s"

definition sanitizeFileName :: "jsstring \<Rightarrow> jsstring" where
  "sanitizeFileName title = toLowerCase (replace_spaces (filter title_char title))"


text \<open>\<open>startsWith\<close> is \<^const>\<open>prefix\<close>; \<open>s.endsWith(t)\<close> and \<open>s.includes(t)\<close> follow.\<close>

definition endsWith :: "jsstring \<Rightarrow> jsstring \<Rightarrow> bool" where
  "endsWith s t = prefix (rev t) (rev s)"

fun includes_js :: "jsstring \<Rightarrow> jsstring \<Rightarrow> bool" where
  "includes_js [] t = (t = [])"
| "includes_js (c # cs) t = (prefix t (c # cs) \<or> includes_js cs t)"

text \<open>\<open>s.split(sep)\<close> for a separator of one code unit: never the empty array.\<close>

fun split_on :: "nat \<Rightarrow> jsstring \<Rightarrow> jsstring list" where
  "split_on sep [] = [[]]"
| "split_on sep (c # cs) =
     (if c = sep then [] # split_on sep cs
      else (case split_on sep cs of [] \<Rightarrow> [[c]] | w # ws \<Rightarrow> (c # w) # ws))"

definition trim :: "jsstring \<Rightarrow> jsstring" where
  "trim s = rev (dropWhile is_space (rev (dropWhile is_space s)))"

text \<open>\<open>String(n)\<close> of an integer: its decimal digits, after a minus sign when negative.\<close>

function show_nat :: "nat \<Rightarrow> jsstring" where
  "show_nat n = (if n < 10 then [48 + n] else show_nat (n div 10) @ [48 + n mod 10])"
  by pat_completeness auto
termination
  by (relation "measure (\<lambda>n. n)") auto

declare show_nat.simps [simp del]

definition show_int :: "int \<Rightarrow> jsstring" where
  "show_int i = (if i < 0 then 45 # show_nat (nat (- i)) else show_nat (nat i))"

text \<open>\<open>s.padStart(n, fill)\<close> with a fill string of one code unit.\<close>

definition padStart :: "nat \<Rightarrow> nat \<Rightarrow> jsstring \<Rightarrow> jsstring" where
  "padStart n fill s = replicate (n - length s) fill @ s"

text \<open>
  \<open>getFileExtension\<close>: \<open>filename.split('.').pop()?.toLowerCase() || 'mp4'\<close>. The array
  that \<open>split\<close> returns is never empty, so \<open>pop\<close> gives its last element; the empty
  string is falsy and gives the default.
\<close>

definition getFileExtension :: "jsstring \<Rightarrow> jsstring" where
  "getFileExtension filename =
     (let e = toLowerCase (last (split_on 46 filename))
      in if e = [] then str ''mp4'' else e)"

section \<open>Numbers of the random endpoint\<close>

text \<open>
  The numbers that reach \<open>getRandomVideos\<close> come from \<open>parseInt\<close> or are the literal 5:
  an integer or \<open>NaN\<close>. (An integer too large for a double is rounded by the runtime; the
  model keeps it exact, and every such value is beyond the length of any array.)
\<close>

datatype jsnum = NaN | Num int

definition is_digit :: "nat \<Rightarrow> bool" where
  "is_digit c \<longleftrightarrow> 48 \<le> c \<and> c \<le> 57"

definition digits_value :: "jsstring \<Rightarrow> nat" where
  "digits_value ds = foldl (\<lambda>a d. 10 * a + (d - 48)) 0 ds"

text \<open>
  \<open>parseInt(s, 10)\<close>: leading white space is skipped, one sign is read, then the longest
  run of decimal digits; with no digit the result is \<open>NaN\<close>.
\<close>

definition parseInt10 :: "jsstring \<Rightarrow> jsnum" where
  "parseInt10 s =
     (let t = dropWhile is_space s;
          neg = (case t of [] \<Rightarrow> False | c # _ \<Rightarrow> c = 45);
          u = (case t of [] \<Rightarrow> [] | c # r \<Rightarrow> if c = 45 \<or> c = 43 then r else t);
          ds = takeWhile is_digit u
      in if ds = [] then NaN
         else Num ((if neg then - 1 else 1) * int (digits_value ds)))"

text \<open>\<open>Math.min(count, n)\<close> for an array length \<open>n\<close>: \<open>NaN\<close> when \<open>count\<close> is.\<close>

definition math_min :: "jsnum \<Rightarrow> nat \<Rightarrow> jsnum" where
  "math_min c n = (case c of NaN \<Rightarrow> NaN | Num k \<Rightarrow> Num (min k (int n)))"

text \<open>
  \<open>xs.slice(0, end)\<close>: \<open>NaN\<close> is read as 0, a negative \<open>end\<close> counts from the end of the
  array, and the result stops at the length.
\<close>

definition slice0 :: "'a list \<Rightarrow> jsnum \<Rightarrow> 'a list" where
  "slice0 xs e =
     (let len = int (length xs);
          rel = (case e of NaN \<Rightarrow> 0 | Num k \<Rightarrow> k);
          final = (if rel < 0 then max (len + rel) 0 else min rel len)
      in take (nat final) xs)"

text \<open>
  The Fisher-Yates loop, \<open>i\<close> from the last index down to 1. \<open>rnd i\<close> is the value
  \<open>Math.random()\<close> returns in the iteration of index \<open>i\<close>, and the destructuring swap
  reads both elements before it writes.
\<close>

fun shuffle_from :: "(nat \<Rightarrow> real) \<Rightarrow> nat \<Rightarrow> 'a list \<Rightarrow> 'a list" where
  "shuffle_from rnd 0 xs = xs"
| "shuffle_from rnd (Suc k) xs =
     (let i = Suc k; j = nat \<lfloor>rnd i * real (i + 1)\<rfloor>
      in shuffle_from rnd k (xs[i := xs ! j, j := xs ! i]))"

definition shuffle :: "(nat \<Rightarrow> real) \<Rightarrow> 'a list \<Rightarrow> 'a list" where
  "shuffle rnd xs = shuffle_from rnd (length xs - 1) xs"

section \<open>Data model\<close>

text \<open>
  The \<open>tags\<close> field is declared \<open>string[]\<close>, and a multipart form delivers it as one
  string: at run time it holds either.
\<close>

datatype tags_value = TagsString jsstring | TagsArray "jsstring list"

text \<open>\<open>UploadVideoDto\<close>; an optional field is \<open>None\<close> when it is \<open>undefined\<close>.\<close>

record UploadVideoDto =
  dto_title :: jsstring
  dto_description :: "jsstring option"
  dto_tags :: "tags_value option"
  dto_category :: "jsstring option"

record VideoMetadata =
  title :: jsstring
  description :: "jsstring option"
  tags :: "tags_value option"
  category :: "jsstring option"
  uploadDate :: jsstring
  fileSize :: nat
  duration :: "jsstring option"
  resolution :: "jsstring option"
  format :: jsstring
  videoUrl :: jsstring
  publicUrl :: jsstring
  thumbnailUrl :: "jsstring option"

text \<open>The fields of \<open>Express.Multer.File\<close> that the service reads (\<open>file_size\<close> is \<open>size\<close>).\<close>

record MulterFile =
  originalname :: jsstring
  mimetype :: jsstring
  file_size :: nat
  buffer :: "nat list"

text \<open>
  What the service reads of \<open>new Date()\<close>: \<open>getFullYear()\<close>, \<open>getMonth()\<close> (0 to 11) and
  \<open>toISOString()\<close>.
\<close>

record js_date =
  fullYear :: int
  monthIndex :: nat
  isoString :: jsstring

text \<open>
  The bucket: its objects in the order a listing returns them, and what the storage client
  does on each call, since every call of it can reject. An object is its bytes, its
  content type and its custom metadata. A write under a name the bucket has replaces that
  object where it stands; where a listing places a new name is the store's business, and
  the model puts it last.
\<close>

record gcs_object =
  body :: "nat list"
  contentType :: jsstring
  customMetadata :: "(jsstring \<times> jsstring) list"

record bucket =
  objects :: "(jsstring \<times> gcs_object) list"
  write_fails :: "jsstring \<Rightarrow> bool"
  list_fails :: bool
  download_fails :: "jsstring \<Rightarrow> bool"

text \<open>
  The errors the service rethrows: the rejection of a storage call, and the
  \<open>SyntaxError\<close> of \<open>JSON.parse\<close>, whose message is made from the text it was given
  (kept here as that text).
\<close>

datatype error =
  WriteError jsstring
| ListError
| DownloadError jsstring
| SyntaxError "nat list"

section \<open>Upload\<close>

text \<open>Lines 46 to 50: a non-empty string is split on commas and each piece trimmed;
  \<open>undefined\<close>, the empty string (both falsy) and an array are left as they are.\<close>

definition normalize_tags :: "tags_value option \<Rightarrow> tags_value option" where
  "normalize_tags t =
     (case t of
        Some (TagsString s) \<Rightarrow>
          if s \<noteq> [] then Some (TagsArray (map trim (split_on 44 s))) else t
      | _ \<Rightarrow> t)"

text \<open>\<open>metadata.tags || []\<close> and \<open>metadata.description || ''\<close>.\<close>

definition tags_or_empty :: "tags_value option \<Rightarrow> tags_value" where
  "tags_or_empty t =
     (case t of
        None \<Rightarrow> TagsArray []
      | Some (TagsString s) \<Rightarrow> if s = [] then TagsArray [] else TagsString s
      | Some (TagsArray l) \<Rightarrow> TagsArray l)"

definition string_or_empty :: "jsstring option \<Rightarrow> jsstring" where
  "string_or_empty t = (case t of None \<Rightarrow> [] | Some s \<Rightarrow> s)"

text \<open>
  \<open>uploadVideo\<close>. The DTO is an object of the caller that line 47 assigns to, so the
  model returns it with the bucket and the outcome. \<open>bucketName\<close> is the configured
  bucket, \<open>stringify r\<close> the bytes of \<open>JSON.stringify(r, null, 2)\<close> and \<open>now\<close> the clock.
\<close>

definition uploadVideo ::
  "jsstring \<Rightarrow> (VideoMetadata \<Rightarrow> nat list) \<Rightarrow> js_date \<Rightarrow> MulterFile \<Rightarrow> UploadVideoDto \<Rightarrow>
   bucket \<Rightarrow> UploadVideoDto \<times> bucket \<times> (error + VideoMetadata)" where
  "uploadVideo bucketName stringify now file metadata0 store =
     (let metadata = metadata0\<lparr>dto_tags := normalize_tags (dto_tags metadata0)\<rparr>;
          year = show_int (fullYear now);
          month = padStart 2 48 (show_nat (monthIndex now + 1));
          safeTitle = sanitizeFileName (dto_title metadata);
          fileName = safeTitle @ str ''.'' @ getFileExtension (originalname file);
          gcsPath = str ''videos/'' @ year @ str ''/'' @ month @ str ''/'' @ fileName
      in if write_fails store gcsPath then (metadata, store, Inl (WriteError gcsPath))
         else
           let store1 = store\<lparr>objects :=
                 AList.update gcsPath
                   \<lparr>body = buffer file, contentType = mimetype file,
                    customMetadata = [(str ''title'', dto_title metadata),
                                      (str ''uploadDate'', isoString now)]\<rparr>
                   (objects store)\<rparr>;
               publicUrl = str ''https://storage.googleapis.com/'' @ bucketName @ str ''/'' @ gcsPath;
               videoMetadata =
                 \<lparr>title = dto_title metadata,
                  description = Some (string_or_empty (dto_description metadata)),
                  tags = Some (tags_or_empty (dto_tags metadata)),
                  category = Some (string_or_empty (dto_category metadata)),
                  uploadDate = isoString now,
                  fileSize = file_size file,
                  duration = None,
                  resolution = None,
                  format = getFileExtension (originalname file),
                  videoUrl = str ''gs://'' @ bucketName @ str ''/'' @ gcsPath,
                  publicUrl = publicUrl,
                  thumbnailUrl = None\<rparr>;
               metadataPath =
                 str ''videos/'' @ year @ str ''/'' @ month @ str ''/metadata/'' @ safeTitle @ str ''.json''
           in if write_fails store metadataPath
              then (metadata, store1, Inl (WriteError metadataPath))
              else (metadata,
                    store1\<lparr>objects :=
                      AList.update metadataPath
                        \<lparr>body = stringify videoMetadata,
                         contentType = str ''application/json'',
                         customMetadata = []\<rparr>
                        (objects store1)\<rparr>,
                    Inr videoMetadata))"

section \<open>Catalog\<close>

text \<open>\<open>bucket.getFiles({ prefix })\<close>: the objects whose name starts with the prefix, which
  the store reads literally, in listing order.\<close>

definition getFiles :: "jsstring \<Rightarrow> bucket \<Rightarrow> error + (jsstring \<times> gcs_object) list" where
  "getFiles pfx store =
     (if list_fails store then Inl ListError
      else Inr (filter (\<lambda>(name, _). prefix pfx name) (objects store)))"

text \<open>
  The loop of lines 146 to 150: each file is downloaded and parsed in turn, and the first
  rejection or \<open>SyntaxError\<close> leaves the loop. \<open>json_parse b\<close> is \<open>JSON.parse\<close> of the
  downloaded bytes read as text, \<open>None\<close> when it throws; \<open>'v\<close> is whatever value it makes.
\<close>

fun download_all ::
  "(nat list \<Rightarrow> 'v option) \<Rightarrow> bucket \<Rightarrow> (jsstring \<times> gcs_object) list \<Rightarrow> error + 'v list" where
  "download_all json_parse store [] = Inr []"
| "download_all json_parse store ((name, obj) # files) =
     (if download_fails store name then Inl (DownloadError name)
      else (case json_parse (body obj) of
              None \<Rightarrow> Inl (SyntaxError (body obj))
            | Some v \<Rightarrow>
                (case download_all json_parse store files of
                   Inl e \<Rightarrow> Inl e
                 | Inr videos \<Rightarrow> Inr (v # videos))))"

text \<open>
  The comparator of line 154. \<open>getTime v\<close> is \<open>new Date(v.uploadDate).getTime()\<close>, \<open>None\<close>
  when that is \<open>NaN\<close>; a difference with \<open>NaN\<close> is \<open>NaN\<close>, which \<open>sort\<close> reads as 0.
  (The values \<open>'v\<close> are those a property can be read of: a stored \<open>null\<close>, on which the
  comparator would throw, is outside the model.)
\<close>

definition compare_dates :: "('v \<Rightarrow> int option) \<Rightarrow> 'v \<Rightarrow> 'v \<Rightarrow> int" where
  "compare_dates getTime a b =
     (case (getTime b, getTime a) of
        (Some tb, Some ta) \<Rightarrow> tb - ta
      | _ \<Rightarrow> 0)"

text \<open>
  \<open>Array.prototype.sort(cmp)\<close>, which is stable: an element stays behind those before it
  that it does not precede (\<open>cmp\<close> not negative), so it moves ahead of \<open>y\<close> only when
  \<open>cmp x y\<close> is not positive. With a comparator that is a consistent order, as
  \<open>compare_dates\<close> is on valid dates, the stable sort is unique and this insertion sort
  computes it; with an inconsistent one (a \<open>NaN\<close> date) the language leaves the order to
  the engine.
\<close>

fun insert_by :: "('v \<Rightarrow> 'v \<Rightarrow> int) \<Rightarrow> 'v \<Rightarrow> 'v list \<Rightarrow> 'v list" where
  "insert_by cmp x [] = [x]"
| "insert_by cmp x (y # ys) = (if cmp x y > 0 then y # insert_by cmp x ys else x # y # ys)"

definition js_sort :: "('v \<Rightarrow> 'v \<Rightarrow> int) \<Rightarrow> 'v list \<Rightarrow> 'v list" where
  "js_sort cmp xs = foldr (insert_by cmp) xs []"

definition is_metadata_file :: "jsstring \<times> gcs_object \<Rightarrow> bool" where
  "is_metadata_file f =
     (includes_js (fst f) (str ''/metadata/'') \<and> endsWith (fst f) (str ''.json''))"

definition getAllVideos ::
  "(nat list \<Rightarrow> 'v option) \<Rightarrow> ('v \<Rightarrow> int option) \<Rightarrow> bucket \<Rightarrow> error + 'v list" where
  "getAllVideos json_parse getTime store =
     (case getFiles (str ''videos/'') store of
        Inl e \<Rightarrow> Inl e
      | Inr files \<Rightarrow>
          (case download_all json_parse store (filter is_metadata_file files) of
             Inl e \<Rightarrow> Inl e
           | Inr videos \<Rightarrow> Inr (js_sort (compare_dates getTime) videos)))"

text \<open>\<open>getVideoById\<close>: \<open>null\<close> is \<open>None\<close>.\<close>

definition getVideoById ::
  "(nat list \<Rightarrow> 'v option) \<Rightarrow> jsstring \<Rightarrow> bucket \<Rightarrow> error + 'v option" where
  "getVideoById json_parse title0 store =
     (let safeTitle = sanitizeFileName title0
      in case getFiles (str ''videos/*/metadata/'' @ safeTitle @ str ''.json'') store of
           Inl e \<Rightarrow> Inl e
         | Inr [] \<Rightarrow> Inr None
         | Inr ((name, obj) # _) \<Rightarrow>
             if download_fails store name then Inl (DownloadError name)
             else (case json_parse (body obj) of
                     None \<Rightarrow> Inl (SyntaxError (body obj))
                   | Some v \<Rightarrow> Inr (Some v)))"

text \<open>\<open>getRandomVideos(count = 5)\<close> of the service: \<open>None\<close> is an omitted argument.\<close>

definition getRandomVideos ::
  "(nat list \<Rightarrow> 'v option) \<Rightarrow> ('v \<Rightarrow> int option) \<Rightarrow> (nat \<Rightarrow> real) \<Rightarrow> jsnum option \<Rightarrow> bucket \<Rightarrow>
   error + 'v list" where
  "getRandomVideos json_parse getTime rnd count0 store =
     (let count = (case count0 of None \<Rightarrow> Num 5 | Some c \<Rightarrow> c)
      in case getAllVideos json_parse getTime store of
           Inl e \<Rightarrow> Inl e
         | Inr allVideos \<Rightarrow>
             if length allVideos = 0 then Inr []
             else
               let maxCount = math_min count (length allVideos);
                   shuffled = shuffle rnd allVideos
               in Inr (slice0 shuffled maxCount))"

text \<open>
  The handler of \<open>GET /video/random\<close>: \<open>count ? parseInt(count, 10) : 5\<close>, where a missing
  parameter is \<open>None\<close> and the empty string is falsy (\<open>count_param\<close> is the query
  parameter \<open>count\<close>).
\<close>

definition controller_getRandomVideos ::
  "(nat list \<Rightarrow> 'v option) \<Rightarrow> ('v \<Rightarrow> int option) \<Rightarrow> (nat \<Rightarrow> real) \<Rightarrow> jsstring option \<Rightarrow> bucket \<Rightarrow>
   error + 'v list" where
  "controller_getRandomVideos json_parse getTime rnd count_param store =
     (let countNum = (case count_param of
                        None \<Rightarrow> Num 5
                      | Some c \<Rightarrow> if c = [] then Num 5 else parseInt10 c)
      in getRandomVideos json_parse getTime rnd (Some countNum) store)"

section \<open>Auxiliary definitions\<close>

text \<open>The code units a sanitized title is made of: a to z, digits, Hangul syllables and
  the hyphen.\<close>

definition key_char :: "nat \<Rightarrow> bool" where
  "key_char c \<longleftrightarrow>
     (97 \<le> c \<and> c \<le> 122) \<or> (48 \<le> c \<and> c \<le> 57) \<or> (44032 \<le> c \<and> c \<le> 55203) \<or> c = 45"

text \<open>
  Concrete stores and a concrete reading of the stored bytes, for the evaluations below:
  a bucket whose calls all succeed, a parser that rejects the empty body and returns any
  other body as the value, and a time that is the first byte of that value.
\<close>

definition bucket_of :: "(jsstring \<times> nat list) list \<Rightarrow> bucket" where
  "bucket_of kvs =
     \<lparr>objects = map (\<lambda>(k, b). (k, \<lparr>body = b, contentType = [], customMetadata = []\<rparr>)) kvs,
      write_fails = (\<lambda>_. False), list_fails = False, download_fails = (\<lambda>_. False)\<rparr>"

definition bytes_parse :: "nat list \<Rightarrow> nat list option" where
  "bytes_parse b = (if b = [] then None else Some b)"

definition first_byte_time :: "nat list \<Rightarrow> int option" where
  "first_byte_time v = (case v of [] \<Rightarrow> None | t # _ \<Rightarrow> Some (int t))"

definition catalog5 :: bucket where
  "catalog5 = bucket_of
     [(str ''videos/2025/07/a.mp4'', [0]),
      (str ''videos/2025/07/metadata/a.json'', [5]),
      (str ''videos/2025/07/metadata/b.json'', [3]),
      (str ''videos/2025/08/metadata/c.json'', [4]),
      (str ''videos/2025/08/metadata/d.json'', [1]),
      (str ''videos/2025/09/metadata/e.json'', [2])]"

definition failing_bucket :: bucket where
  "failing_bucket = (bucket_of [])\<lparr>write_fails := (\<lambda>_. True)\<rparr>"

definition sample_date :: js_date where
  "sample_date = \<lparr>fullYear = 2025, monthIndex = 6, isoString = str ''2025-07-24T14:48:03.064Z''\<rparr>"

definition sample_file :: MulterFile where
  "sample_file =
     \<lparr>originalname = str ''clip.mp4'', mimetype = str ''video/mp4'', file_size = 3,
      buffer = [1, 2, 3]\<rparr>"

definition sample_dto :: "jsstring \<Rightarrow> tags_value option \<Rightarrow> UploadVideoDto" where
  "sample_dto t tg = \<lparr>dto_title = t, dto_description = None, dto_tags = tg, dto_category = None\<rparr>"

text \<open>A stand-in for \<open>JSON.stringify\<close> in the evaluations: the bytes of the record's URL.\<close>

definition url_bytes :: "VideoMetadata \<Rightarrow> nat list" where
  "url_bytes r = videoUrl r"

definition sample_upload :: "jsstring \<Rightarrow> tags_value option \<Rightarrow> bucket \<Rightarrow>
    UploadVideoDto \<times> bucket \<times> (error + VideoMetadata)" where
  "sample_upload t tg store =
     uploadVideo (str ''short-form'') url_bytes sample_date sample_file (sample_dto t tg) store"

definition catalog_ties :: bucket where
  "catalog_ties = bucket_of
     [(str ''videos/2025/07/metadata/a.json'', [3, 1]),
      (str ''other/2025/07/metadata/z.json'', [9]),
      (str ''videos/2025/07/metadata/b.json'', [5]),
      (str ''videos/2025/07/b.mp4'', [7]),
      (str ''videos/2025/08/metadata/c.json'', [3, 2]),
      (str ''videos/2025/08/metadata/d.txt'', [8]),
      (str ''videos/2025/08/metadata/e.json'', [4])]"

definition corrupt_a :: bucket where
  "corrupt_a = bucket_of
     [(str ''videos/2025/07/metadata/a.json'', [5]),
      (str ''videos/2025/07/metadata/bad.json'', [])]"

definition corrupt_b :: bucket where
  "corrupt_b = bucket_of
     [(str ''videos/2025/07/metadata/a.json'', [5]),
      (str ''videos/2025/08/metadata/other.json'', [])]"

section \<open>Sanitization\<close>

lemma key_char_not_space: "key_char c \<Longrightarrow> \<not> is_space c"
  by (auto simp: key_char_def is_space_def)

lemma key_char_title_char: "key_char c \<Longrightarrow> title_char c"
  by (auto simp: key_char_def title_char_def)

lemma key_char_lower: "key_char c \<Longrightarrow> lower_unit c = c"
  by (auto simp: key_char_def lower_unit_def)

lemma lower_unit_key_char: "title_char c \<Longrightarrow> \<not> is_space c \<Longrightarrow> key_char (lower_unit c)"
  by (auto simp: key_char_def title_char_def lower_unit_def)

lemma replace_spaces_no_space: "\<forall>c\<in>set s. \<not> is_space c \<Longrightarrow> replace_spaces s = s"
  by (induction s) auto

lemma set_replace_spaces:
  "set (replace_spaces s) \<subseteq> insert 45 {c \<in> set s. \<not> is_space c}"
proof (induction s rule: replace_spaces.induct)
  case 1
  then show ?case by simp
next
  case (2 c cs)
  show ?case
  proof (cases "is_space c")
    case True
    have "set (dropWhile is_space cs) \<subseteq> set cs"
      by (auto dest: set_dropWhileD)
    with 2(1)[OF True] True show ?thesis by auto
  next
    case False
    with 2(2)[OF False] show ?thesis by auto
  qed
qed

lemma sanitize_key_chars: "c \<in> set (sanitizeFileName t) \<Longrightarrow> key_char c"
proof -
  assume "c \<in> set (sanitizeFileName t)"
  then obtain d where d: "d \<in> set (replace_spaces (filter title_char t))" and c: "c = lower_unit d"
    by (auto simp: sanitizeFileName_def toLowerCase_def)
  from d set_replace_spaces[of "filter title_char t"]
  have "d = 45 \<or> (title_char d \<and> \<not> is_space d)" by auto
  then show "key_char c"
  proof
    assume "d = 45"
    then show ?thesis by (simp add: c key_char_def lower_unit_def)
  next
    assume "title_char d \<and> \<not> is_space d"
    then show ?thesis by (simp add: c lower_unit_key_char)
  qed
qed

lemma sanitize_fixed: "\<forall>c\<in>set s. key_char c \<Longrightarrow> sanitizeFileName s = s"
proof -
  assume a: "\<forall>c\<in>set s. key_char c"
  then have "filter title_char s = s" by (simp add: key_char_title_char)
  moreover have "replace_spaces s = s"
    using a by (simp add: replace_spaces_no_space key_char_not_space)
  moreover have "map lower_unit s = s" using a by (simp add: map_idI key_char_lower)
  ultimately show ?thesis by (simp add: sanitizeFileName_def toLowerCase_def)
qed

text \<open>
  C8. Sanitizing a title twice gives what sanitizing it once gives, for every string:
  the result of \<open>sanitizeFileName\<close> holds only lower-case ASCII letters, digits, Hangul
  syllables and hyphens, and such a string is left as it is.
\<close>

theorem sanitizeFileName_idempotent:
  "sanitizeFileName (sanitizeFileName x) = sanitizeFileName x"
  by (rule sanitize_fixed) (simp add: sanitize_key_chars)

section \<open>Random sample\<close>

lemma length_shuffle_from: "length (shuffle_from rnd k xs) = length xs"
  by (induction k arbitrary: xs) (simp_all add: Let_def)

lemma length_shuffle: "length (shuffle rnd xs) = length xs"
  by (simp add: shuffle_def length_shuffle_from)

lemma length_slice0:
  "length (slice0 xs e) =
     (case e of NaN \<Rightarrow> 0
      | Num k \<Rightarrow> if k < 0 then nat (int (length xs) + k) else min (nat k) (length xs))"
  by (auto simp: slice0_def split: jsnum.splits)

text \<open>
  How many records \<open>getRandomVideos\<close> returns over a catalog of \<open>length vs\<close> records:
  none for \<open>NaN\<close>, \<open>min count (length vs)\<close> for a count that is not negative, and for a
  negative count all but the last \<open>- count\<close>.
\<close>

lemma getRandomVideos_length:
  assumes "getAllVideos json_parse getTime store = Inr vs"
  shows "\<exists>rs. getRandomVideos json_parse getTime rnd (Some c) store = Inr rs \<and>
           length rs = (case c of NaN \<Rightarrow> 0
                        | Num k \<Rightarrow> if k < 0 then nat (int (length vs) + k)
                                   else min (nat k) (length vs))"
  using assms
  by (auto simp: getRandomVideos_def Let_def length_slice0 length_shuffle math_min_def
      split: jsnum.splits)

lemma getAllVideos_catalog5:
  "getAllVideos bytes_parse first_byte_time catalog5 = Inr [[5], [4], [3], [2], [1]]"
  by (simp add: getAllVideos_def getFiles_def catalog5_def bucket_of_def str_def
      is_metadata_file_def endsWith_def bytes_parse_def js_sort_def compare_dates_def
      first_byte_time_def)

text \<open>
  C1. The claim is that \<open>getRandomVideos\<close> returns \<open>min(count, total)\<close> records and none
  for a count that is not positive. Over the five records of \<open>catalog5\<close> and the count
  \<open>-2\<close> (the request \<open>GET /video/random?count=-2\<close>) it returns three records, whatever
  \<open>Math.random\<close> gives: \<open>Math.min(-2, 5)\<close> is \<open>-2\<close>, and \<open>slice(0, -2)\<close> drops the last two
  elements.
\<close>

theorem getRandomVideos_negative_count:
  "\<exists>rs. getRandomVideos bytes_parse first_byte_time rnd (Some (Num (- 2))) catalog5 = Inr rs \<and>
     length rs = 3"
  using getRandomVideos_length[OF getAllVideos_catalog5, of rnd "Num (- 2)"] by simp

text \<open>
  C4. The claim is that a count that is not a number is read as the default 5. For the
  request \<open>GET /video/random?count=abc\<close> over the five records of \<open>catalog5\<close> the handler
  returns the empty array: \<open>parseInt\<close> gives \<open>NaN\<close>, \<open>Math.min(NaN, 5)\<close> is \<open>NaN\<close>, and
  \<open>slice(0, NaN)\<close> is empty.
\<close>

theorem controller_non_numeric_count:
  "controller_getRandomVideos bytes_parse first_byte_time rnd (Some (str ''abc'')) catalog5 = Inr []"
  using getRandomVideos_length[OF getAllVideos_catalog5, of rnd NaN]
  by (auto simp add: controller_getRandomVideos_def parseInt10_def str_def is_space_def
      is_digit_def)

section \<open>Upload\<close>

lemma split_on_not_Nil: "split_on sep s \<noteq> []"
  by (induction s) (auto split: list.splits)

lemma split_on_append:
  "split_on sep (xs @ sep # ys) = split_on sep xs @ split_on sep ys"
proof (induction xs)
  case Nil
  show ?case by simp
next
  case (Cons c xs)
  obtain w ws where "split_on sep xs = w # ws"
    using split_on_not_Nil[of sep xs] by (cases "split_on sep xs") auto
  with Cons show ?case by simp
qed

lemma last_split_on_append:
  "last (split_on sep (xs @ sep # ys)) = last (split_on sep ys)"
  by (simp add: split_on_append split_on_not_Nil)

lemma getFileExtension_mp4: "getFileExtension (base @ str ''.mp4'') = str ''mp4''"
proof -
  have "str ''.mp4'' = 46 # str ''mp4''" by (simp add: str_def)
  then have "last (split_on 46 (base @ str ''.mp4'')) = last (split_on 46 (str ''mp4''))"
    by (simp add: last_split_on_append)
  then show ?thesis
    by (simp add: getFileExtension_def str_def toLowerCase_def lower_unit_def)
qed

lemma sanitize_my_cat: "sanitizeFileName (str ''My Cat! Video'') = str ''my-cat-video''"
  by (simp add: sanitizeFileName_def str_def toLowerCase_def lower_unit_def title_char_def
      is_space_def)

lemma year_2025: "show_int 2025 = str ''2025''"
  by (simp add: show_int_def show_nat.simps str_def)

lemma month_07: "padStart 2 48 (show_nat 7) = str ''07''"
  by (simp add: show_nat.simps str_def padStart_def)

lemma sample_extension: "getFileExtension (str ''clip.mp4'') = str ''mp4''"
  using getFileExtension_mp4[of "str ''clip''"] by (simp add: str_def)

text \<open>
  C6. An upload with the title \<open>My Cat! Video\<close> and a file whose name ends in \<open>.mp4\<close>,
  made when the clock reads July 2025, both writes succeeding: the binary object is
  written at \<open>videos/2025/07/my-cat-video.mp4\<close> and then the metadata object at
  \<open>videos/2025/07/metadata/my-cat-video.json\<close>, nothing else in the bucket changes, and
  the record returned has the format \<open>mp4\<close> and a \<open>videoUrl\<close> that starts with \<open>gs://\<close>.
\<close>

theorem upload_my_cat_video:
  assumes "dto_title metadata = str ''My Cat! Video''"
    and "originalname file = base @ str ''.mp4''"
    and "fullYear now = 2025" and "monthIndex now = 6"
    and "\<not> write_fails store (str ''videos/2025/07/my-cat-video.mp4'')"
    and "\<not> write_fails store (str ''videos/2025/07/metadata/my-cat-video.json'')"
  shows "\<exists>m store' r.
      uploadVideo bucketName stringify now file metadata store = (m, store', Inr r) \<and>
      format r = str ''mp4'' \<and>
      prefix (str ''gs://'') (videoUrl r) \<and>
      objects store' =
        AList.update (str ''videos/2025/07/metadata/my-cat-video.json'')
          \<lparr>body = stringify r, contentType = str ''application/json'', customMetadata = []\<rparr>
          (AList.update (str ''videos/2025/07/my-cat-video.mp4'')
             \<lparr>body = buffer file, contentType = mimetype file,
              customMetadata = [(str ''title'', str ''My Cat! Video''),
                                (str ''uploadDate'', isoString now)]\<rparr>
             (objects store))"
proof -
  have bin: "str ''videos/'' @ str ''2025'' @ str ''/'' @ str ''07'' @ str ''/'' @
      str ''my-cat-video'' @ str ''.'' @ str ''mp4'' = str ''videos/2025/07/my-cat-video.mp4''"
    by (simp add: str_def)
  have meta: "str ''videos/'' @ str ''2025'' @ str ''/'' @ str ''07'' @ str ''/metadata/'' @
      str ''my-cat-video'' @ str ''.json'' = str ''videos/2025/07/metadata/my-cat-video.json''"
    by (simp add: str_def)
  have gs: "prefix (str ''gs://'') (str ''gs://'' @ rest)" for rest
    by simp
  show ?thesis
    using assms(5,6)
    by (simp add: uploadVideo_def Let_def assms(1-4) sanitize_my_cat year_2025 month_07
        getFileExtension_mp4 bin meta gs del: append_assoc)
qed

theorem upload_my_cat_video_witness:
  "\<exists>m store' r.
      sample_upload (str ''My Cat! Video'') None (bucket_of []) = (m, store', Inr r) \<and>
      format r = str ''mp4'' \<and>
      prefix (str ''gs://'') (videoUrl r) \<and>
      objects store' =
        [(str ''videos/2025/07/my-cat-video.mp4'',
          \<lparr>body = [1, 2, 3], contentType = str ''video/mp4'',
           customMetadata = [(str ''title'', str ''My Cat! Video''),
                             (str ''uploadDate'', str ''2025-07-24T14:48:03.064Z'')]\<rparr>),
         (str ''videos/2025/07/metadata/my-cat-video.json'',
          \<lparr>body = url_bytes r, contentType = str ''application/json'', customMetadata = []\<rparr>)]"
proof -
  have h1: "dto_title (sample_dto (str ''My Cat! Video'') None) = str ''My Cat! Video''"
    by (simp add: sample_dto_def)
  have h2: "originalname sample_file = str ''clip'' @ str ''.mp4''"
    by (simp add: sample_file_def str_def)
  have h3: "fullYear sample_date = 2025" and h4: "monthIndex sample_date = 6"
    by (simp_all add: sample_date_def)
  have h5: "\<not> write_fails (bucket_of []) (str ''videos/2025/07/my-cat-video.mp4'')"
    and h6: "\<not> write_fails (bucket_of []) (str ''videos/2025/07/metadata/my-cat-video.json'')"
    by (simp_all add: bucket_of_def)
  have neq: "str ''videos/2025/07/my-cat-video.mp4'' \<noteq> str ''videos/2025/07/metadata/my-cat-video.json''"
    by (simp add: str_def)
  show ?thesis
    using upload_my_cat_video[OF h1 h2 h3 h4 h5 h6, of "str ''short-form''" url_bytes] neq
    by (auto simp add: sample_upload_def bucket_of_def sample_file_def sample_date_def)
qed

lemma sanitize_symbols: "sanitizeFileName (str ''!!!'') = []"
  by (simp add: sanitizeFileName_def str_def toLowerCase_def title_char_def is_space_def)

lemmas sample_defs = sample_upload_def sample_dto_def sample_file_def sample_date_def
  bucket_of_def url_bytes_def

text \<open>
  The title \<open>!!!\<close> sanitizes to the empty string; its upload into the empty bucket returns
  a record and leaves two objects, at \<open>videos/2025/07/.mp4\<close> and at
  \<open>videos/2025/07/metadata/.json\<close>.
\<close>

theorem upload_symbols_title_counterexample:
  "sanitizeFileName (str ''!!!'') = [] \<and>
   snd (snd (sample_upload (str ''!!!'') None (bucket_of []))) =
     Inr \<lparr>title = str ''!!!'', description = Some [], tags = Some (TagsArray []),
          category = Some [], uploadDate = str ''2025-07-24T14:48:03.064Z'', fileSize = 3,
          duration = None, resolution = None, format = str ''mp4'',
          videoUrl = str ''gs://short-form/videos/2025/07/.mp4'',
          publicUrl = str ''https://storage.googleapis.com/short-form/videos/2025/07/.mp4'',
          thumbnailUrl = None\<rparr> \<and>
   objects (fst (snd (sample_upload (str ''!!!'') None (bucket_of [])))) =
     [(str ''videos/2025/07/.mp4'',
       \<lparr>body = [1, 2, 3], contentType = str ''video/mp4'',
        customMetadata = [(str ''title'', str ''!!!''),
                          (str ''uploadDate'', str ''2025-07-24T14:48:03.064Z'')]\<rparr>),
      (str ''videos/2025/07/metadata/.json'',
       \<lparr>body = str ''gs://short-form/videos/2025/07/.mp4'',
        contentType = str ''application/json'', customMetadata = []\<rparr>)]"
proof -
  have "sample_upload (str ''!!!'') None (bucket_of []) =
     (sample_dto (str ''!!!'') None,
      \<lparr>objects =
           [(str ''videos/2025/07/.mp4'',
             \<lparr>body = [1, 2, 3], contentType = str ''video/mp4'',
              customMetadata = [(str ''title'', str ''!!!''),
                                (str ''uploadDate'', str ''2025-07-24T14:48:03.064Z'')]\<rparr>),
            (str ''videos/2025/07/metadata/.json'',
             \<lparr>body = str ''gs://short-form/videos/2025/07/.mp4'',
              contentType = str ''application/json'', customMetadata = []\<rparr>)],
        write_fails = (\<lambda>_. False), list_fails = False, download_fails = (\<lambda>_. False)\<rparr>,
      Inr \<lparr>title = str ''!!!'', description = Some [], tags = Some (TagsArray []),
           category = Some [], uploadDate = str ''2025-07-24T14:48:03.064Z'', fileSize = 3,
           duration = None, resolution = None, format = str ''mp4'',
           videoUrl = str ''gs://short-form/videos/2025/07/.mp4'',
           publicUrl = str ''https://storage.googleapis.com/short-form/videos/2025/07/.mp4'',
           thumbnailUrl = None\<rparr>)"
    apply (simp add: uploadVideo_def Let_def sample_defs sample_extension year_2025 month_07
        sanitize_symbols normalize_tags_def tags_or_empty_def string_or_empty_def)
    apply (simp add: str_def)
    done
  then show ?thesis by (simp add: sanitize_symbols)
qed

text \<open>
  C2, as the code has it. \<open>uploadVideo\<close> has no check of the sanitized title. For every
  title that sanitizes to the empty string, when the storage writes succeed, the upload
  returns the record, with the binary object written at
  \<open>videos/{year}/{month}/.{ext}\<close> and the metadata object at
  \<open>videos/{year}/{month}/metadata/.json\<close>.
\<close>

theorem upload_empty_sanitized_title:
  assumes "sanitizeFileName (dto_title metadata) = []"
    and "\<forall>k. \<not> write_fails store k"
  shows "\<exists>m store' r.
      uploadVideo bucketName stringify now file metadata store = (m, store', Inr r) \<and>
      map_of (objects store')
        (str ''videos/'' @ show_int (fullYear now) @ str ''/'' @
         padStart 2 48 (show_nat (monthIndex now + 1)) @ str ''/.'' @
         getFileExtension (originalname file)) =
        Some \<lparr>body = buffer file, contentType = mimetype file,
              customMetadata = [(str ''title'', dto_title metadata),
                                (str ''uploadDate'', isoString now)]\<rparr> \<and>
      map_of (objects store')
        (str ''videos/'' @ show_int (fullYear now) @ str ''/'' @
         padStart 2 48 (show_nat (monthIndex now + 1)) @ str ''/metadata/.json'') =
        Some \<lparr>body = stringify r, contentType = str ''application/json'',
              customMetadata = []\<rparr>"
proof -
  have a: "str ''/'' @ str ''.'' @ e = str ''/.'' @ e" for e by (simp add: str_def)
  have b: "str ''/metadata/'' @ str ''.json'' = str ''/metadata/.json''" by (simp add: str_def)
  have c: "str ''/.'' @ e \<noteq> str ''/metadata/.json''" for e by (simp add: str_def)
  show ?thesis
    using assms
    by (simp add: uploadVideo_def Let_def update_conv' a b c)
qed

theorem upload_empty_sanitized_title_witness:
  "\<exists>m store' r.
      sample_upload (str ''!!!'') None (bucket_of []) = (m, store', Inr r) \<and>
      map_of (objects store') (str ''videos/2025/07/.mp4'') =
        Some \<lparr>body = [1, 2, 3], contentType = str ''video/mp4'',
              customMetadata = [(str ''title'', str ''!!!''),
                                (str ''uploadDate'', str ''2025-07-24T14:48:03.064Z'')]\<rparr> \<and>
      map_of (objects store') (str ''videos/2025/07/metadata/.json'') =
        Some \<lparr>body = url_bytes r, contentType = str ''application/json'',
              customMetadata = []\<rparr>"
proof -
  have h1: "sanitizeFileName (dto_title (sample_dto (str ''!!!'') None)) = []"
    by (simp add: sample_dto_def sanitize_symbols)
  have h2: "\<forall>k. \<not> write_fails (bucket_of []) k"
    by (simp add: bucket_of_def)
  have k1: "str ''videos/'' @ str ''2025'' @ str ''/'' @ str ''07'' @ str ''/.'' @ str ''mp4'' =
      str ''videos/2025/07/.mp4''"
    by (simp add: str_def)
  have k2: "str ''videos/'' @ str ''2025'' @ str ''/'' @ str ''07'' @ str ''/metadata/.json'' =
      str ''videos/2025/07/metadata/.json''"
    by (simp add: str_def)
  show ?thesis
    using upload_empty_sanitized_title[OF h1 h2, of "str ''short-form''" url_bytes sample_date
        sample_file]
    by (simp add: sample_upload_def sample_file_def sample_date_def sample_dto_def
        sample_extension year_2025 month_07 k1 k2)
qed

lemma tags_abc:
  "map trim (split_on 44 (str ''a, b ,c'')) = [str ''a'', str ''b'', str ''c'']"
  by (simp add: trim_def str_def is_space_def)

text \<open>
  C9. An upload whose writes succeed, with the tags given as the string \<open>a, b ,c\<close>: the
  DTO and the record returned hold the list \<open>a\<close>, \<open>b\<close>, \<open>c\<close>. With the tags given as a
  list, both hold that list unchanged.
\<close>

theorem upload_tags_normalized:
  assumes "\<forall>k. \<not> write_fails store k"
  shows "(\<exists>m store' r.
      uploadVideo bucketName stringify now file
        (metadata\<lparr>dto_tags := Some (TagsString (str ''a, b ,c''))\<rparr>) store = (m, store', Inr r) \<and>
      dto_tags m = Some (TagsArray [str ''a'', str ''b'', str ''c'']) \<and>
      tags r = Some (TagsArray [str ''a'', str ''b'', str ''c''])) \<and>
    (\<exists>m store' r.
      uploadVideo bucketName stringify now file
        (metadata\<lparr>dto_tags := Some (TagsArray l)\<rparr>) store = (m, store', Inr r) \<and>
      dto_tags m = Some (TagsArray l) \<and>
      tags r = Some (TagsArray l))"
proof -
  have ne: "str ''a, b ,c'' \<noteq> []" by (simp add: str_def)
  show ?thesis
    using assms
    by (simp add: uploadVideo_def Let_def normalize_tags_def tags_or_empty_def tags_abc ne)
qed

theorem upload_tags_normalized_witness:
  "(\<exists>m store' r.
      sample_upload (str ''t'') (Some (TagsString (str ''a, b ,c''))) (bucket_of []) =
        (m, store', Inr r) \<and>
      dto_tags m = Some (TagsArray [str ''a'', str ''b'', str ''c'']) \<and>
      tags r = Some (TagsArray [str ''a'', str ''b'', str ''c''])) \<and>
    (\<exists>m store' r.
      sample_upload (str ''t'') (Some (TagsArray [str ''x'', str '' y''])) (bucket_of []) =
        (m, store', Inr r) \<and>
      dto_tags m = Some (TagsArray [str ''x'', str '' y'']) \<and>
      tags r = Some (TagsArray [str ''x'', str '' y'']))"
proof -
  have h: "\<forall>k. \<not> write_fails (bucket_of []) k"
    by (simp add: bucket_of_def)
  show ?thesis
    using upload_tags_normalized[OF h, of "str ''short-form''" url_bytes sample_date sample_file
        "sample_dto (str ''t'') None" "[str ''x'', str '' y'']"]
    by (simp add: sample_upload_def sample_dto_def)
qed

text \<open>
  C10, as the code has it. When the tags of the DTO are a string that is not empty, the DTO
  after the call is the DTO before it with the tags replaced by the pieces of the string,
  split on commas and trimmed, and no other field changed. This holds for every bucket,
  also one that rejects the writes: the assignment comes before them.
\<close>

theorem uploadVideo_reassigns_tags:
  assumes "dto_tags metadata = Some (TagsString s)" and "s \<noteq> []"
  shows "fst (uploadVideo bucketName stringify now file metadata store) =
     metadata\<lparr>dto_tags := Some (TagsArray (map trim (split_on 44 s)))\<rparr>"
  using assms by (simp add: uploadVideo_def Let_def normalize_tags_def)

theorem uploadVideo_reassigns_tags_witness:
  "fst (sample_upload (str ''t'') (Some (TagsString (str ''a, b ,c''))) failing_bucket) =
     sample_dto (str ''t'') (Some (TagsArray [str ''a'', str ''b'', str ''c'']))"
proof -
  have h1: "dto_tags (sample_dto (str ''t'') (Some (TagsString (str ''a, b ,c'')))) =
      Some (TagsString (str ''a, b ,c''))"
    by (simp add: sample_dto_def)
  have h2: "str ''a, b ,c'' \<noteq> []" by (simp add: str_def)
  show ?thesis
    using uploadVideo_reassigns_tags[OF h1 h2, of "str ''short-form''" url_bytes sample_date
        sample_file failing_bucket]
    by (simp add: sample_upload_def sample_dto_def tags_abc)
qed

text \<open>
  The empty string is falsy, so line 46 leaves it: the tags of the DTO are still the empty
  string after the call, not the array \<open>['']\<close> that splitting and trimming it gives.
\<close>

theorem upload_empty_tags_string_counterexample:
  "dto_tags (fst (sample_upload (str ''t'') (Some (TagsString [])) (bucket_of []))) =
     Some (TagsString []) \<and>
   map trim (split_on 44 []) = [[]]"
  by (simp add: sample_upload_def uploadVideo_def Let_def normalize_tags_def sample_dto_def
      trim_def)

section \<open>Lookup by title\<close>

lemma getFiles_no_match:
  assumes "\<not> list_fails store" and "\<forall>f\<in>set (objects store). \<not> prefix pfx (fst f)"
  shows "getFiles pfx store = Inr []"
  using assms by (auto simp: getFiles_def filter_empty_conv)

lemma wildcard_prefix: "prefix (str ''videos/*/metadata/'' @ t) k \<Longrightarrow> prefix (str ''videos/*'') k"
proof -
  assume "prefix (str ''videos/*/metadata/'' @ t) k"
  moreover have "str ''videos/*/metadata/'' @ t = str ''videos/*'' @ (str ''/metadata/'' @ t)"
    by (simp add: str_def)
  ultimately show ?thesis by (metis append_prefixD)
qed

text \<open>
  The prefix \<open>getVideoById\<close> asks for starts with \<open>videos/*\<close>, the asterisk read as a
  character. Over a bucket with no object name that starts so, whose listing succeeds, the
  result is \<open>null\<close> for every title.
\<close>

lemma getVideoById_null:
  assumes "\<not> list_fails store" and "\<forall>f\<in>set (objects store). \<not> prefix (str ''videos/*'') (fst f)"
  shows "getVideoById json_parse t store = Inr None"
proof -
  have "getFiles (str ''videos/*/metadata/'' @ sanitizeFileName t @ str ''.json'') store = Inr []"
    using assms by (intro getFiles_no_match) (auto dest: wildcard_prefix)
  then show ?thesis by (simp add: getVideoById_def)
qed

text \<open>
  C3. The claim is that \<open>getVideoById\<close> returns the record of a metadata object whose key
  matches \<open>videos/*/metadata/{sanitizedTitle}.json\<close> when one is in the store. After the
  upload of \<open>My Cat! Video\<close> into the empty bucket the store holds
  \<open>videos/2025/07/metadata/my-cat-video.json\<close>, and \<open>getVideoById\<close> of that title over
  that store is \<open>null\<close>.
\<close>

theorem getVideoById_after_upload:
  "map fst (objects (fst (snd (sample_upload (str ''My Cat! Video'') None (bucket_of []))))) =
     [str ''videos/2025/07/my-cat-video.mp4'', str ''videos/2025/07/metadata/my-cat-video.json''] \<and>
   getVideoById bytes_parse (str ''My Cat! Video'')
     (fst (snd (sample_upload (str ''My Cat! Video'') None (bucket_of [])))) = Inr None"
proof -
  have up: "fst (snd (sample_upload (str ''My Cat! Video'') None (bucket_of []))) =
      \<lparr>objects =
         [(str ''videos/2025/07/my-cat-video.mp4'',
           \<lparr>body = [1, 2, 3], contentType = str ''video/mp4'',
            customMetadata = [(str ''title'', str ''My Cat! Video''),
                              (str ''uploadDate'', str ''2025-07-24T14:48:03.064Z'')]\<rparr>),
          (str ''videos/2025/07/metadata/my-cat-video.json'',
           \<lparr>body = str ''gs://short-form/videos/2025/07/my-cat-video.mp4'',
            contentType = str ''application/json'', customMetadata = []\<rparr>)],
       write_fails = (\<lambda>_. False), list_fails = False, download_fails = (\<lambda>_. False)\<rparr>"
    apply (simp add: uploadVideo_def Let_def sample_defs sample_extension year_2025 month_07
        sanitize_my_cat normalize_tags_def tags_or_empty_def string_or_empty_def)
    apply (simp add: str_def)
    done
  show ?thesis
    unfolding up
    by (rule conjI, simp, rule getVideoById_null) (simp_all add: str_def)
qed

section \<open>Listing\<close>

lemma download_all_parsed:
  "download_all json_parse store files = Inr vs \<Longrightarrow>
   map (\<lambda>f. json_parse (body (snd f))) files = map Some vs"
proof (induction files arbitrary: vs)
  case Nil
  then show ?case by simp
next
  case (Cons g files)
  obtain name obj where g: "g = (name, obj)" by (cases g)
  from Cons.prems obtain v ws where v: "json_parse (body obj) = Some v"
    and ws: "download_all json_parse store files = Inr ws" and vs: "vs = v # ws"
    by (auto simp: g split: if_splits option.splits sum.splits)
  from Cons.IH[OF ws] v vs show ?case by (simp add: g)
qed

text \<open>
  On records whose dates are all valid, \<open>sort\<close> with the comparator of line 154 is the
  stable sort by the negated time.
\<close>

lemma insert_by_insort:
  assumes "getTime x \<noteq> None" and "\<forall>y\<in>set ys. getTime y \<noteq> None"
  shows "insert_by (compare_dates getTime) x ys = insort_key (\<lambda>v. - the (getTime v)) x ys"
  using assms by (induction ys) (auto simp: compare_dates_def)

lemma js_sort_sort_key:
  assumes "\<forall>y\<in>set xs. getTime y \<noteq> None"
  shows "js_sort (compare_dates getTime) xs = sort_key (\<lambda>v. - the (getTime v)) xs"
  using assms
proof (induction xs)
  case Nil
  show ?case by (simp add: js_sort_def)
next
  case (Cons x xs)
  then have "js_sort (compare_dates getTime) xs = sort_key (\<lambda>v. - the (getTime v)) xs"
    by simp
  moreover have "\<forall>y\<in>set (sort_key (\<lambda>v. - the (getTime v)) xs). getTime y \<noteq> None"
    using Cons.prems by simp
  ultimately show ?case
    using Cons.prems by (simp add: js_sort_def insert_by_insort sort_key_def)
qed

lemma set_insert_by: "set (insert_by cmp x ys) = insert x (set ys)"
  by (induction ys) auto

lemma set_js_sort: "set (js_sort cmp xs) = set xs"
  by (induction xs) (simp_all add: js_sort_def set_insert_by)

lemma getAllVideos_result:
  assumes "getAllVideos json_parse getTime store = Inr videos"
    and "\<forall>v\<in>set videos. getTime v \<noteq> None"
  shows "\<exists>listing.
      map (\<lambda>f. json_parse (body (snd f)))
        (filter (\<lambda>f. prefix (str ''videos/'') (fst f) \<and> includes_js (fst f) (str ''/metadata/'') \<and>
                      endsWith (fst f) (str ''.json'')) (objects store)) = map Some listing \<and>
      mset videos = mset listing \<and>
      sorted_wrt (\<lambda>a b. \<exists>ta tb. getTime a = Some ta \<and> getTime b = Some tb \<and> tb \<le> ta) videos \<and>
      (\<forall>t. filter (\<lambda>v. getTime v = t) videos = filter (\<lambda>v. getTime v = t) listing)"
proof -
  let ?files = "filter is_metadata_file
      (filter (\<lambda>(name, _). prefix (str ''videos/'') name) (objects store))"
  let ?key = "\<lambda>v. - the (getTime v)"
  from assms(1) obtain listing where dl: "download_all json_parse store ?files = Inr listing"
    and vs: "videos = js_sort (compare_dates getTime) listing"
    by (auto simp: getAllVideos_def getFiles_def split: if_splits sum.splits)
  have files: "?files = filter (\<lambda>f. prefix (str ''videos/'') (fst f) \<and>
      includes_js (fst f) (str ''/metadata/'') \<and> endsWith (fst f) (str ''.json'')) (objects store)"
    by (simp add: is_metadata_file_def case_prod_unfold conj_commute conj_left_commute)
  have valid: "\<forall>v\<in>set listing. getTime v \<noteq> None"
    using assms(2) by (simp add: vs set_js_sort)
  have sk: "videos = sort_key ?key listing"
    using valid by (simp add: vs js_sort_sort_key)
  have 1: "map (\<lambda>f. json_parse (body (snd f))) ?files = map Some listing"
    by (rule download_all_parsed[OF dl])
  have 2: "mset videos = mset listing"
    by (simp add: sk)
  have "sorted (map ?key videos)"
    by (simp add: sk)
  then have "sorted_wrt (\<lambda>a b. ?key a \<le> ?key b) videos"
    by (simp add: sorted_map)
  moreover have "\<exists>ta tb. getTime a = Some ta \<and> getTime b = Some tb \<and> tb \<le> ta"
    if "a \<in> set videos" and "b \<in> set videos" and "?key a \<le> ?key b" for a b
  proof -
    from that(1,2) assms(2) have "getTime a \<noteq> None" and "getTime b \<noteq> None"
      by blast+
    then obtain ta tb where "getTime a = Some ta" and "getTime b = Some tb"
      by blast
    with that(3) show ?thesis by simp
  qed
  ultimately have 3: "sorted_wrt
      (\<lambda>a b. \<exists>ta tb. getTime a = Some ta \<and> getTime b = Some tb \<and> tb \<le> ta) videos"
    by (rule sorted_wrt_mono_rel[rotated])
  have 4: "filter (\<lambda>v. getTime v = t) videos = filter (\<lambda>v. getTime v = t) listing" for t
  proof (cases t)
    case None
    then show ?thesis using valid assms(2) by (simp add: filter_empty_conv[THEN iffD2])
  next
    case (Some u)
    have eq: "filter (\<lambda>v. getTime v = t) zs = filter (\<lambda>v. ?key v = - u) zs"
      if "\<forall>v\<in>set zs. getTime v \<noteq> None" for zs
      using that by (intro filter_cong) (auto simp: Some)
    have "filter (\<lambda>v. getTime v = t) videos = filter (\<lambda>v. ?key v = - u) videos"
      by (rule eq[OF assms(2)])
    also have "\<dots> = filter (\<lambda>v. ?key v = - u) listing"
      unfolding sk by (rule sort_key_stable)
    also have "\<dots> = filter (\<lambda>v. getTime v = t) listing"
      by (rule eq[OF valid, symmetric])
    finally show ?thesis .
  qed
  from 1 2 3 4 show ?thesis unfolding files by blast
qed


lemma download_all_ok:
  assumes "\<forall>k. \<not> download_fails store k"
    and "\<forall>f\<in>set files. json_parse (body (snd f)) \<noteq> None"
  shows "\<exists>vs. download_all json_parse store files = Inr vs"
  using assms(2)
proof (induction files)
  case Nil
  show ?case by simp
next
  case (Cons g files)
  obtain name obj where g: "g = (name, obj)" by (cases g)
  from Cons.prems obtain v where v: "json_parse (body obj) = Some v"
    by (auto simp: g)
  from Cons obtain vs where "download_all json_parse store files = Inr vs"
    by auto
  with v assms(1) show ?case by (simp add: g)
qed

text \<open>
  C5. Over a store whose listing and downloads succeed and whose metadata objects (the
  keys under \<open>videos/\<close> that contain \<open>/metadata/\<close> and end in \<open>.json\<close>) each parse to a
  record with a valid upload date, \<open>getAllVideos\<close> returns a sequence \<open>videos\<close> such that,
  with \<open>listing\<close> the records of exactly those objects in listing order: \<open>videos\<close> is a
  rearrangement of \<open>listing\<close>; of any two records of \<open>videos\<close> the later one has the
  earlier or the same time; and the records of one time stand in \<open>videos\<close> in the order
  they have in \<open>listing\<close>.
\<close>

theorem getAllVideos_sorted_stable:
  assumes "\<not> list_fails store" and "\<forall>k. \<not> download_fails store k"
    and "\<forall>f\<in>set (objects store).
           prefix (str ''videos/'') (fst f) \<and> includes_js (fst f) (str ''/metadata/'') \<and>
           endsWith (fst f) (str ''.json'') \<longrightarrow>
           (\<exists>v t. json_parse (body (snd f)) = Some v \<and> getTime v = Some t)"
  shows "\<exists>videos listing.
      getAllVideos json_parse getTime store = Inr videos \<and>
      map (\<lambda>f. json_parse (body (snd f)))
        (filter (\<lambda>f. prefix (str ''videos/'') (fst f) \<and> includes_js (fst f) (str ''/metadata/'') \<and>
                      endsWith (fst f) (str ''.json'')) (objects store)) = map Some listing \<and>
      mset videos = mset listing \<and>
      sorted_wrt (\<lambda>a b. \<exists>ta tb. getTime a = Some ta \<and> getTime b = Some tb \<and> tb \<le> ta) videos \<and>
      (\<forall>t. filter (\<lambda>v. getTime v = t) videos = filter (\<lambda>v. getTime v = t) listing)"
proof -
  let ?sel = "\<lambda>f. prefix (str ''videos/'') (fst f) \<and> includes_js (fst f) (str ''/metadata/'') \<and>
      endsWith (fst f) (str ''.json'')"
  let ?files = "filter is_metadata_file
      (filter (\<lambda>(name, _). prefix (str ''videos/'') name) (objects store))"
  have files: "?files = filter ?sel (objects store)"
    by (simp add: is_metadata_file_def case_prod_unfold conj_commute conj_left_commute)
  have "\<forall>f\<in>set ?files. json_parse (body (snd f)) \<noteq> None"
    unfolding files using assms(3) by auto
  from download_all_ok[OF assms(2) this]
  obtain listing where dl: "download_all json_parse store ?files = Inr listing"
    by blast
  let ?videos = "js_sort (compare_dates getTime) listing"
  have res: "getAllVideos json_parse getTime store = Inr ?videos"
    using assms(1) dl by (simp add: getAllVideos_def getFiles_def)
  have parsed: "map (\<lambda>f. json_parse (body (snd f))) (filter ?sel (objects store)) = map Some listing"
    using download_all_parsed[OF dl] unfolding files .
  have "getTime v \<noteq> None" if "v \<in> set listing" for v
  proof -
    from that have "Some v \<in> set (map Some listing)" by simp
    then obtain f where "f \<in> set (filter ?sel (objects store))" and "json_parse (body (snd f)) = Some v"
      unfolding parsed[symmetric] by auto
    with assms(3) show ?thesis by fastforce
  qed
  then have "\<forall>v\<in>set ?videos. getTime v \<noteq> None"
    by (simp add: set_js_sort)
  from getAllVideos_result[OF res this] res show ?thesis
    by blast
qed

lemma getAllVideos_catalog_ties:
  "getAllVideos bytes_parse first_byte_time catalog_ties = Inr [[5], [4], [3, 1], [3, 2]]"
  by (simp add: getAllVideos_def getFiles_def catalog_ties_def bucket_of_def str_def
      is_metadata_file_def endsWith_def bytes_parse_def js_sort_def compare_dates_def
      first_byte_time_def)

theorem getAllVideos_sorted_stable_witness:
  "\<exists>listing.
      getAllVideos bytes_parse first_byte_time catalog_ties = Inr [[5], [4], [3, 1], [3, 2]] \<and>
      map (\<lambda>f. bytes_parse (body (snd f)))
        (filter (\<lambda>f. prefix (str ''videos/'') (fst f) \<and> includes_js (fst f) (str ''/metadata/'') \<and>
                      endsWith (fst f) (str ''.json'')) (objects catalog_ties)) = map Some listing \<and>
      mset [[5], [4], [3, 1], [3, 2]] = mset listing \<and>
      sorted_wrt (\<lambda>a b. \<exists>ta tb. first_byte_time a = Some ta \<and> first_byte_time b = Some tb \<and> tb \<le> ta)
        [[5], [4], [3, 1], [3, 2 :: nat]] \<and>
      (\<forall>t. filter (\<lambda>v. first_byte_time v = t) [[5], [4], [3, 1], [3, 2]] =
           filter (\<lambda>v. first_byte_time v = t) listing)"
proof -
  have h1: "\<not> list_fails catalog_ties" and h2: "\<forall>k. \<not> download_fails catalog_ties k"
    by (simp_all add: catalog_ties_def bucket_of_def)
  have h3: "\<forall>f\<in>set (objects catalog_ties).
      prefix (str ''videos/'') (fst f) \<and> includes_js (fst f) (str ''/metadata/'') \<and>
      endsWith (fst f) (str ''.json'') \<longrightarrow>
      (\<exists>v t. bytes_parse (body (snd f)) = Some v \<and> first_byte_time v = Some t)"
    by (simp add: catalog_ties_def bucket_of_def bytes_parse_def first_byte_time_def)
  from getAllVideos_sorted_stable[OF h1 h2 h3] show ?thesis
    by (simp add: getAllVideos_catalog_ties)
qed

lemma download_all_corrupt:
  assumes "f \<in> set files" and "json_parse (body (snd f)) = None"
  shows "\<exists>e. download_all json_parse store files = Inl e \<and>
           ((\<forall>k. \<not> download_fails store k) \<longrightarrow> (\<exists>b. e = SyntaxError b \<and> json_parse b = None))"
  using assms
proof (induction files)
  case Nil
  then show ?case by simp
next
  case (Cons g files)
  obtain name obj where g: "g = (name, obj)" by (cases g)
  show ?case
  proof (cases "download_fails store name")
    case True
    then show ?thesis by (auto simp: g)
  next
    case False
    show ?thesis
    proof (cases "json_parse (body obj)")
      case None
      with False show ?thesis by (simp add: g)
    next
      case (Some v)
      with Cons.prems g have "f \<in> set files" by auto
      from Cons.IH[OF this Cons.prems(2)] False Some show ?thesis
        by (auto simp: g)
    qed
  qed
qed

text \<open>
  C7, as the code has it. If the body of any metadata object is rejected by \<open>JSON.parse\<close>,
  \<open>getAllVideos\<close> returns no sequence but an error; when the listing and the downloads
  succeed, that error is the \<open>SyntaxError\<close> of a rejected body, rethrown as it is.
\<close>

theorem getAllVideos_corrupt_aborts:
  assumes "(k, obj) \<in> set (objects store)"
    and "prefix (str ''videos/'') k"
    and "includes_js k (str ''/metadata/'')" and "endsWith k (str ''.json'')"
    and "json_parse (body obj) = None"
  shows "\<exists>e. getAllVideos json_parse getTime store = Inl e \<and>
           (\<not> list_fails store \<and> (\<forall>k. \<not> download_fails store k) \<longrightarrow>
              (\<exists>b. e = SyntaxError b \<and> json_parse b = None))"
proof (cases "list_fails store")
  case True
  then show ?thesis by (simp add: getAllVideos_def getFiles_def)
next
  case False
  let ?files = "filter is_metadata_file (filter (\<lambda>(name, _). prefix (str ''videos/'') name) (objects store))"
  have "(k, obj) \<in> set ?files"
    using assms(1-4) by (simp add: is_metadata_file_def)
  from download_all_corrupt[OF this, of json_parse store] assms(5)
  obtain e where e: "download_all json_parse store ?files = Inl e"
    and s: "(\<forall>k. \<not> download_fails store k) \<longrightarrow> (\<exists>b. e = SyntaxError b \<and> json_parse b = None)"
    by auto
  from False e have "getAllVideos json_parse getTime store = Inl e"
    by (simp add: getAllVideos_def getFiles_def)
  with s show ?thesis by simp
qed

theorem getAllVideos_corrupt_aborts_witness:
  "\<not> list_fails corrupt_a \<and> (\<forall>k. \<not> download_fails corrupt_a k) \<and>
   getAllVideos bytes_parse first_byte_time corrupt_a = Inl (SyntaxError [])"
proof -
  have h1: "(str ''videos/2025/07/metadata/bad.json'',
      \<lparr>body = [], contentType = [], customMetadata = []\<rparr>) \<in> set (objects corrupt_a)"
    by (simp add: corrupt_a_def bucket_of_def)
  have h2: "prefix (str ''videos/'') (str ''videos/2025/07/metadata/bad.json'')"
    by (simp add: str_def)
  have h3: "includes_js (str ''videos/2025/07/metadata/bad.json'') (str ''/metadata/'')"
    by (simp add: str_def)
  have h4: "endsWith (str ''videos/2025/07/metadata/bad.json'') (str ''.json'')"
    by (simp add: str_def endsWith_def)
  have h5: "bytes_parse (body \<lparr>body = [], contentType = [], customMetadata = []\<rparr>) = None"
    by (simp add: bytes_parse_def)
  have ok: "\<not> list_fails corrupt_a \<and> (\<forall>k. \<not> download_fails corrupt_a k)"
    by (simp add: corrupt_a_def bucket_of_def)
  have empty: "b = []" if "bytes_parse b = None" for b
    using that by (simp add: bytes_parse_def split: if_splits)
  from getAllVideos_corrupt_aborts
    [where json_parse = bytes_parse and getTime = first_byte_time, OF h1 h2 h3 h4 h5] ok
  obtain b where "getAllVideos bytes_parse first_byte_time corrupt_a = Inl (SyntaxError b)"
    and "bytes_parse b = None"
    by blast
  with empty ok show ?thesis by simp
qed

text \<open>
  The error says nothing of the key: two stores that hold the same rejected body under
  different keys fail with the same error.
\<close>

theorem getAllVideos_error_without_key_counterexample:
  "getAllVideos bytes_parse first_byte_time corrupt_a = Inl (SyntaxError []) \<and>
   getAllVideos bytes_parse first_byte_time corrupt_b = Inl (SyntaxError []) \<and>
   map fst (objects corrupt_a) =
     [str ''videos/2025/07/metadata/a.json'', str ''videos/2025/07/metadata/bad.json''] \<and>
   map fst (objects corrupt_b) =
     [str ''videos/2025/07/metadata/a.json'', str ''videos/2025/08/metadata/other.json'']"
  by (simp add: getAllVideos_def getFiles_def corrupt_a_def corrupt_b_def bucket_of_def str_def
      is_metadata_file_def endsWith_def bytes_parse_def)

end
